theory Spec2Isabelle
  imports Main "HOL-Library.AList"
begin

section \<open>Strings and the Go string primitives the package calls\<close>

text \<open>
  Go strings are modelled as \<^typ>\<open>string\<close>, one \<^typ>\<open>char\<close> per character
  (code points up to 255). The functions of this section transcribe the functions of Go's
  \<^verbatim>\<open>strings\<close> package that \<^verbatim>\<open>headers.go\<close> calls, with the arguments in Go's order.
\<close>

definition HasPrefix :: "string \<Rightarrow> string \<Rightarrow> bool" where
  "HasPrefix s p = (take (length p) s = p)"

definition HasSuffix :: "string \<Rightarrow> string \<Rightarrow> bool" where
  "HasSuffix s p = (length p \<le> length s \<and> drop (length s - length p) s = p)"

definition TrimPrefix :: "string \<Rightarrow> string \<Rightarrow> string" where
  "TrimPrefix s p = (if HasPrefix s p then drop (length p) s else s)"

definition TrimSuffix :: "string \<Rightarrow> string \<Rightarrow> string" where
  "TrimSuffix s p = (if HasSuffix s p then take (length s - length p) s else s)"

fun Contains :: "string \<Rightarrow> string \<Rightarrow> bool" where
  "Contains [] sub = (sub = [])"
| "Contains (c # cs) sub = (HasPrefix (c # cs) sub \<or> Contains cs sub)"

text \<open>\<^verbatim>\<open>strings.Cut\<close>: the text before and after the first occurrence of \<open>sep\<close>.\<close>

fun Cut :: "string \<Rightarrow> string \<Rightarrow> (string \<times> string) option" where
  "Cut [] sep = (if sep = [] then Some ([], []) else None)"
| "Cut (c # cs) sep =
     (if HasPrefix (c # cs) sep then Some ([], drop (length sep) (c # cs))
      else (case Cut cs sep of None \<Rightarrow> None | Some (a, b) \<Rightarrow> Some (c # a, b)))"

text \<open>
  \<^verbatim>\<open>strings.Replace(s, old, new, 1)\<close>: only the first occurrence of \<open>old\<close> is replaced;
  an empty \<open>old\<close> matches at the start of \<open>s\<close>.
\<close>

definition Replace1 :: "string \<Rightarrow> string \<Rightarrow> string \<Rightarrow> string" where
  "Replace1 s old new = (case Cut s old of None \<Rightarrow> s | Some (a, b) \<Rightarrow> a @ new @ b)"

text \<open>
  \<^verbatim>\<open>strings.SplitN(s, sep, 2)\<close>: at most two pieces, cut at the first \<open>sep\<close>; an empty
  \<open>sep\<close> splits after the first character.
\<close>

definition SplitN2 :: "string \<Rightarrow> string \<Rightarrow> string list" where
  "SplitN2 s sep =
     (if sep = [] then (case s of [] \<Rightarrow> [] | [c] \<Rightarrow> [[c]] | c # cs \<Rightarrow> [[c], cs])
      else (case Cut s sep of None \<Rightarrow> [s] | Some (a, b) \<Rightarrow> [a, b]))"

text \<open>\<^verbatim>\<open>strings.Split(s, sep)\<close> for a separator of one character: every piece.\<close>

fun Split :: "string \<Rightarrow> char \<Rightarrow> string list" where
  "Split [] sep = [[]]"
| "Split (c # cs) sep =
     (if c = sep then [] # Split cs sep
      else (case Split cs sep of [] \<Rightarrow> [[c]] | p # ps \<Rightarrow> (c # p) # ps))"

fun Join :: "string list \<Rightarrow> string \<Rightarrow> string" where
  "Join [] sep = []"
| "Join [x] sep = x"
| "Join (x # y # ys) sep = x @ sep @ Join (y # ys) sep"

definition isSpace :: "char \<Rightarrow> bool" where
  "isSpace c = (c \<in> set [CHR 0x09, CHR 0x0A, CHR 0x0B, CHR 0x0C, CHR 0x0D, CHR '' '',
                          CHR 0x85, CHR 0xA0])"

definition TrimSpace :: "string \<Rightarrow> string" where
  "TrimSpace s = rev (dropWhile isSpace (rev (dropWhile isSpace s)))"

definition isDigit :: "char \<Rightarrow> bool" where
  "isDigit c = (c \<in> set ''0123456789'')"

definition isLetter :: "char \<Rightarrow> bool" where
  "isLetter c = (c \<in> set ''ABCDEFGHIJKLMNOPQRSTUVWXYZabcdefghijklmnopqrstuvwxyz'')"

definition isWord :: "char \<Rightarrow> bool" where
  "isWord c = (isDigit c \<or> isLetter c \<or> c = CHR ''_'')"


section \<open>Data model\<close>

record Header =
  Name :: string
  Value :: string
  Detach :: bool

text \<open>The fields of Go's \<^verbatim>\<open>url.URL\<close> that the package reads or writes.\<close>

record URL =
  Scheme :: string
  Host :: string
  Path :: string

record Rule =
  Pattern :: URL
  Headers :: "Header list"

type_synonym File = "Rule list"

text \<open>
  \<^verbatim>\<open>url.URL.Hostname\<close> of Go's standard library: \<open>Host\<close> without a valid port and
  without the square brackets of an IPv6 literal.
\<close>

definition validOptionalPort :: "string \<Rightarrow> bool" where
  "validOptionalPort port =
     (case port of [] \<Rightarrow> True | c # ds \<Rightarrow> c = CHR '':'' \<and> list_all isDigit ds)"

definition Hostname :: "URL \<Rightarrow> string" where
  "Hostname u =
     (let host = Host u;
          afterColon = rev (takeWhile (\<lambda>c. c \<noteq> CHR '':'') (rev host));
          host1 = (if CHR '':'' \<in> set host \<and> validOptionalPort (CHR '':'' # afterColon)
                   then take (length host - length afterColon - 1) host else host)
      in if HasPrefix host1 ''['' \<and> HasSuffix host1 '']'' then butlast (tl host1) else host1)"


section \<open>The three regular expressions\<close>

text \<open>
  \<^verbatim>\<open>placeholderMatcher.FindString\<close> for \<^verbatim>\<open>:[A-Za-z][[:word:]]*\<close>: the leftmost colon
  that a letter follows, with the longest run of word characters after it; the empty
  string when there is none.
\<close>

fun placeholderMatcher :: "string \<Rightarrow> string" where
  "placeholderMatcher (c # d # cs) =
     (if c = CHR '':'' \<and> isLetter d then c # d # takeWhile isWord cs
      else placeholderMatcher (d # cs))"
| "placeholderMatcher cs = []"

text \<open>
  \<^verbatim>\<open>absoluteUrlMatcher.FindStringSubmatch\<close> for \<^verbatim>\<open>^https?://(.*?)/\<close>: the first group,
  which is the text between \<^verbatim>\<open>://\<close> and the next slash; \<open>.\<close> does not match a newline.
\<close>

definition absoluteUrlMatcher :: "string \<Rightarrow> string option" where
  "absoluteUrlMatcher s =
     (let rest = (if HasPrefix s ''https://'' then Some (drop 8 s)
                  else if HasPrefix s ''http://'' then Some (drop 7 s) else None)
      in case rest of
           None \<Rightarrow> None
         | Some r \<Rightarrow>
             (let host = takeWhile (\<lambda>c. c \<noteq> CHR ''/'') r
              in if length host < length r \<and> CHR 0x0A \<notin> set host then Some host else None))"

text \<open>\<^verbatim>\<open>hostPortMatcher.MatchString\<close> for \<^verbatim>\<open>:[0-9]+$\<close>.\<close>

fun hostPortMatcher :: "string \<Rightarrow> bool" where
  "hostPortMatcher [] = False"
| "hostPortMatcher (c # cs) =
     ((c = CHR '':'' \<and> cs \<noteq> [] \<and> list_all isDigit cs) \<or> hostPortMatcher cs)"


section \<open>Matching one pattern fragment\<close>

definition hasPlaceholder :: "string \<Rightarrow> string \<Rightarrow> string \<Rightarrow> (string \<times> string) option" where
  "hasPlaceholder src inp disallowed =
     (let placeholder = placeholderMatcher src
      in if placeholder \<noteq> [] then
           (case SplitN2 src placeholder of
              pre # suf # _ \<Rightarrow>
                if HasPrefix inp pre \<and> HasSuffix inp suf then
                  (let replacement = TrimPrefix (TrimSuffix inp suf) pre
                   in if \<not> Contains replacement disallowed then Some (placeholder, replacement)
                      else None)
                else None
            | _ \<Rightarrow> None)
         else None)"

definition hasSplat :: "string \<Rightarrow> string \<Rightarrow> string \<Rightarrow> string option" where
  "hasSplat src inp disallowed =
     (if Contains src ''*'' then
        (case Split src (CHR ''*'') of
           pre # suf # _ \<Rightarrow>
             if HasPrefix inp pre \<and> HasSuffix inp suf then
               (let replacing = TrimPrefix (TrimSuffix inp suf) pre
                in if \<not> Contains replacing disallowed then Some replacing else None)
             else None
         | _ \<Rightarrow> None)
      else None)"

definition replacedHeaders :: "Header list \<Rightarrow> string \<Rightarrow> string \<Rightarrow> Header list" where
  "replacedHeaders hs placeholder replacement =
     fold (\<lambda>header out.
             out @ [\<lparr>Name = Name header,
                     Value = Replace1 (Value header) placeholder replacement,
                     Detach = Detach header\<rparr>]) hs []"


section \<open>Flatten\<close>

text \<open>
  The Go map \<^verbatim>\<open>headersOut\<close> is an association list with distinct keys. Go iterates a map
  in no specified order; the model lists the keys in the order of their insertion, and the
  theorems below speak of the set of output lines and of the entries of the map only.
\<close>

definition flattenStep :: "Header \<Rightarrow> (string \<times> string list) list \<Rightarrow> (string \<times> string list) list" where
  "flattenStep header headersOut =
     (if Detach header then AList.delete (Name header) headersOut
      else
        (let headersOut1 = (case map_of headersOut (Name header) of
                              None \<Rightarrow> AList.update (Name header) [] headersOut
                            | Some _ \<Rightarrow> headersOut);
             values = (case map_of headersOut1 (Name header) of None \<Rightarrow> [] | Some vs \<Rightarrow> vs)
         in AList.update (Name header) (values @ [Value header]) headersOut1))"

definition headersOut :: "Header list \<Rightarrow> (string \<times> string list) list" where
  "headersOut hs = fold flattenStep hs []"

definition Flatten :: "Header list \<Rightarrow> string list" where
  "Flatten hs = map (\<lambda>(name, values). name @ '': '' @ Join values '','') (headersOut hs)"


section \<open>Match\<close>

text \<open>
  One iteration of the loop of \<^verbatim>\<open>Match\<close>: the headers that the rule \<open>mapping\<close> appends to
  the stack for the request \<open>inp\<close>. Each \<^verbatim>\<open>continue\<close> of the source ends a branch.
\<close>

definition matchRule :: "URL \<Rightarrow> Rule \<Rightarrow> Header list" where
  "matchRule inp mapping =
     (let hostname = Hostname inp
      in if Host (Pattern mapping) \<noteq> [] then
           (case hasSplat (Host (Pattern mapping)) hostname ''.'' of
              Some replacement \<Rightarrow> replacedHeaders (Headers mapping) '':splat'' replacement
            | None \<Rightarrow>
                (case hasPlaceholder (Host (Pattern mapping)) hostname ''.'' of
                   Some (pattern, replacement) \<Rightarrow>
                     replacedHeaders (Headers mapping) pattern replacement
                 | None \<Rightarrow>
                     if Host (Pattern mapping) = hostname then Headers mapping else []))
         else
           (case hasSplat (Path (Pattern mapping)) (Path inp) ''/'' of
              Some replacement \<Rightarrow> replacedHeaders (Headers mapping) '':splat'' replacement
            | None \<Rightarrow>
                (case hasPlaceholder (Path (Pattern mapping)) (Path inp) ''/'' of
                   Some (placeholder, replacement) \<Rightarrow>
                     replacedHeaders (Headers mapping) placeholder replacement
                 | None \<Rightarrow>
                     if Path (Pattern mapping) = Path inp then Headers mapping else [])))"

definition headerStack :: "File \<Rightarrow> URL \<Rightarrow> Header list" where
  "headerStack h inp = fold (\<lambda>mapping stack. stack @ matchRule inp mapping) h []"

definition Match :: "File \<Rightarrow> URL \<Rightarrow> string list" where
  "Match h inp = Flatten (headerStack h inp)"


section \<open>Parse\<close>

text \<open>
  The input is the list of lines that the scanner yields, and whether the scanner stopped
  on a read error. \<^verbatim>\<open>url.Parse\<close> of Go's standard library is the parameter \<open>urlParse\<close>,
  \<open>None\<close> being its error.
\<close>

datatype ParseError =
  HeaderWithoutPattern string
  | InvalidHeader string
  | InvalidPort string
  | UrlParseError string
  | InvalidScheme string
  | ScannerError

record ParseState =
  hmap :: File
  pattern :: "URL option"
  headers :: "Header list"

definition checkScheme :: "File \<Rightarrow> URL \<Rightarrow> ParseError + ParseState" where
  "checkScheme hm p =
     (if Scheme p \<noteq> [] \<and> Scheme p \<noteq> ''https'' then Inl (InvalidScheme (Scheme p))
      else Inr \<lparr>hmap = hm, pattern = Some p, headers = []\<rparr>)"

definition parseLine :: "(string \<Rightarrow> URL option) \<Rightarrow> ParseState \<Rightarrow> string \<Rightarrow> ParseError + ParseState" where
  "parseLine urlParse st line =
     (let trimmed = TrimSpace line
      in case trimmed of
           [] \<Rightarrow> Inr st
         | t0 # trest \<Rightarrow>
             if t0 = CHR ''#'' then Inr st
             else if hd line = CHR 0x09 \<or> hd line = CHR '' '' then
               (case pattern st of
                  None \<Rightarrow> Inl (HeaderWithoutPattern line)
                | Some _ \<Rightarrow>
                    if t0 = CHR ''!'' then
                      Inr (st\<lparr>headers := headers st @
                                [\<lparr>Name = TrimSpace trest, Value = [], Detach = True\<rparr>]\<rparr>)
                    else
                      (case SplitN2 trimmed '':'' of
                         [name, val] \<Rightarrow>
                           Inr (st\<lparr>headers := headers st @
                                     [\<lparr>Name = name, Value = TrimSpace val, Detach = False\<rparr>]\<rparr>)
                       | _ \<Rightarrow> Inl (InvalidHeader line)))
             else
               (let hm = (case pattern st of
                            None \<Rightarrow> hmap st
                          | Some p \<Rightarrow> hmap st @ [\<lparr>Pattern = p, Headers = headers st\<rparr>])
                in case absoluteUrlMatcher trimmed of
                     Some host \<Rightarrow>
                       if hostPortMatcher host then Inl (InvalidPort trimmed)
                       else
                         (case urlParse (Replace1 trimmed host ''PLACEHOLDER'') of
                            None \<Rightarrow> Inl (UrlParseError trimmed)
                          | Some p \<Rightarrow> checkScheme hm (p\<lparr>Host := host\<rparr>))
                   | None \<Rightarrow>
                       (case urlParse trimmed of
                          None \<Rightarrow> Inl (UrlParseError trimmed)
                        | Some p \<Rightarrow> checkScheme hm p)))"

fun parseLines :: "(string \<Rightarrow> URL option) \<Rightarrow> ParseState \<Rightarrow> string list \<Rightarrow> ParseError + ParseState" where
  "parseLines urlParse st [] = Inr st"
| "parseLines urlParse st (line # rest) =
     (case parseLine urlParse st line of
        Inl e \<Rightarrow> Inl e
      | Inr st1 \<Rightarrow> parseLines urlParse st1 rest)"

definition Parse :: "(string \<Rightarrow> URL option) \<Rightarrow> string list \<Rightarrow> bool \<Rightarrow> ParseError + File" where
  "Parse urlParse lines scanFailed =
     (case parseLines urlParse \<lparr>hmap = [], pattern = None, headers = []\<rparr> lines of
        Inl e \<Rightarrow> Inl e
      | Inr st \<Rightarrow>
          if scanFailed then Inl ScannerError
          else Inr (case pattern st of
                      None \<Rightarrow> hmap st
                    | Some p \<Rightarrow> hmap st @ [\<lparr>Pattern = p, Headers = headers st\<rparr>]))"


section \<open>Auxiliary facts\<close>

lemmas string_defs = HasPrefix_def HasSuffix_def TrimPrefix_def TrimSuffix_def Replace1_def
  SplitN2_def isSpace_def TrimSpace_def isDigit_def isLetter_def isWord_def
lemmas match_defs = hasSplat_def hasPlaceholder_def matchRule_def Hostname_def validOptionalPort_def
lemmas flatten_defs = Flatten_def headersOut_def flattenStep_def Match_def

subsection \<open>The loops of the package as list functions\<close>

lemma fold_snoc_map: "fold (\<lambda>x out. out @ [g x]) xs acc = acc @ map g xs"
  by (induction xs arbitrary: acc) simp_all

lemma replacedHeaders_map:
  "replacedHeaders hs p r = map (\<lambda>h. h\<lparr>Value := Replace1 (Value h) p r\<rparr>) hs"
  unfolding replacedHeaders_def by (simp add: fold_snoc_map)

lemma fold_append_concat: "fold (\<lambda>x stack. stack @ g x) xs acc = acc @ concat (map g xs)"
  by (induction xs arbitrary: acc) simp_all

lemma headerStack_concat: "headerStack f u = concat (map (matchRule u) f)"
  unfolding headerStack_def by (simp add: fold_append_concat)

subsection \<open>Cutting and replacing at the first occurrence\<close>

lemma HasPrefix_append: "HasPrefix (p @ s) p"
  by (simp add: HasPrefix_def)

lemma HasPrefix_split: "HasPrefix s p \<Longrightarrow> s = p @ drop (length p) s"
  unfolding HasPrefix_def by (metis append_take_drop_id)

lemma Cut_Some_split: "Cut s old = Some (a, b) \<Longrightarrow> s = a @ old @ b"
proof (induction s arbitrary: a)
  case Nil
  then show ?case by (simp split: if_splits)
next
  case (Cons c cs)
  show ?case
  proof (cases "HasPrefix (c # cs) old")
    case True
    with Cons.prems have "a = []" "b = drop (length old) (c # cs)" by simp_all
    with HasPrefix_split[OF True] show ?thesis by simp
  next
    case False
    with Cons.prems obtain a' where "Cut cs old = Some (a', b)" "a = c # a'"
      by (auto split: option.splits)
    with Cons.IH show ?thesis by simp
  qed
qed

lemma Cut_None_iff: "Cut s old = None \<longleftrightarrow> \<not> Contains s old"
  by (induction s) (auto split: option.splits)

lemma Contains_append_HasPrefix:
  "HasPrefix (x # s @ t) old \<Longrightarrow> length old \<le> Suc (length s) \<Longrightarrow> HasPrefix (x # s) old"
  unfolding HasPrefix_def
  by (metis append_Cons length_Cons take_append append.right_neutral diff_is_0_eq' take_0)

lemma Cut_first_occurrence:
  assumes "old \<noteq> []" "\<not> Contains (a @ butlast old) old"
  shows "Cut (a @ old @ b) old = Some (a, b)"
  using assms(2)
proof (induction a)
  case Nil
  from assms(1) obtain c cs where "old @ b = c # cs" by (cases old) auto
  moreover have "HasPrefix (old @ b) old" by (rule HasPrefix_append)
  ultimately show ?case
    by (metis Cut.simps(2) append_Nil append_eq_conv_conj)
next
  case (Cons x a)
  from Cons.prems have np: "\<not> HasPrefix (x # a @ butlast old) old"
    and nc: "\<not> Contains (a @ butlast old) old" by simp_all
  have "\<not> HasPrefix (x # a @ old @ b) old"
  proof
    assume h: "HasPrefix (x # a @ old @ b) old"
    have eq: "x # a @ old @ b = x # (a @ butlast old) @ (last old # b)"
      using assms(1) by (metis append_butlast_last_id append_Cons append_Nil append_assoc)
    from h have "HasPrefix (x # (a @ butlast old) @ (last old # b)) old" unfolding eq .
    moreover have "length old \<le> Suc (length (a @ butlast old))" by simp
    ultimately have "HasPrefix (x # (a @ butlast old)) old"
      by (rule Contains_append_HasPrefix)
    with np show False by simp
  qed
  with Cons.IH[OF nc] show ?case by simp
qed

lemma Replace1_first:
  "old \<noteq> [] \<Longrightarrow> \<not> Contains (a @ butlast old) old \<Longrightarrow> Replace1 (a @ old @ b) old new = a @ new @ b"
  by (simp add: Replace1_def Cut_first_occurrence)

lemma Replace1_absent: "\<not> Contains s old \<Longrightarrow> Replace1 s old new = s"
  using Cut_None_iff[of s old] by (simp add: Replace1_def)

lemma Contains_single: "Contains s [c] \<longleftrightarrow> c \<in> set s"
  by (induction s) (auto simp: HasPrefix_def)

subsection \<open>Placeholder tokens\<close>

lemma placeholderMatcher_shape:
  "placeholderMatcher s \<noteq> [] \<Longrightarrow>
     \<exists>d ws. placeholderMatcher s = CHR '':'' # d # ws \<and> isLetter d \<and> list_all isWord ws"
proof (induction s rule: placeholderMatcher.induct)
  case (1 c d cs)
  then show ?case by (auto simp: list_all_iff dest: set_takeWhileD)
qed simp_all

lemma hasPlaceholder_token:
  "hasPlaceholder src inp d = Some (tok, cap) \<Longrightarrow> tok = placeholderMatcher src \<and> tok \<noteq> []"
  unfolding hasPlaceholder_def
  by (auto simp: Let_def split: if_splits list.splits)


subsection \<open>What one rule contributes\<close>

lemma replacedHeaders_names: "map Name (replacedHeaders hs p c) = map Name hs"
  by (simp add: replacedHeaders_map comp_def)

lemma replacedHeaders_length: "length (replacedHeaders hs p c) = length hs"
  by (simp add: replacedHeaders_map)

lemma matchRule_names: "matchRule u r = [] \<or> map Name (matchRule u r) = map Name (Headers r)"
  by (auto simp: matchRule_def Let_def replacedHeaders_names split: option.splits)

lemma matchRule_length: "length (matchRule u r) \<le> length (Headers r)"
  by (auto simp: matchRule_def Let_def replacedHeaders_length split: option.splits)

lemma headerStack_length: "length (headerStack f u) \<le> sum_list (map (\<lambda>r. length (Headers r)) f)"
proof (induction f)
  case Nil
  then show ?case by (simp add: headerStack_concat)
next
  case (Cons r f)
  then show ?case using matchRule_length[of u r] by (simp add: headerStack_concat)
qed

lemma Hostname_Path_update: "Hostname (u\<lparr>Path := q\<rparr>) = Hostname u"
  by (simp add: Hostname_def)

subsection \<open>The map built by Flatten, name by name\<close>

lemma lookup_flattenStep:
  "map_of (flattenStep h m) n =
     (if Name h = n then
        (if Detach h then None
         else Some ((case map_of m n of None \<Rightarrow> [] | Some vs \<Rightarrow> vs) @ [Value h]))
      else map_of m n)"
  by (auto simp: flattenStep_def Let_def update_conv' delete_conv' split: option.splits)

lemma lookup_fold_cong:
  "map_of m n = map_of m' n \<Longrightarrow>
     map_of (fold flattenStep hs m) n = map_of (fold flattenStep hs m') n"
proof (induction hs arbitrary: m m')
  case Nil
  then show ?case by simp
next
  case (Cons h hs)
  have "map_of (flattenStep h m) n = map_of (flattenStep h m') n"
    using Cons.prems by (simp add: lookup_flattenStep)
  then have "map_of (fold flattenStep hs (flattenStep h m)) n
      = map_of (fold flattenStep hs (flattenStep h m')) n"
    by (rule Cons.IH)
  then show ?case by simp
qed

lemma lookup_no_detach:
  "\<forall>h\<in>set hs. Name h = n \<longrightarrow> \<not> Detach h \<Longrightarrow>
     map_of (fold flattenStep hs m) n =
       (if filter (\<lambda>h. Name h = n) hs = [] then map_of m n
        else Some ((case map_of m n of None \<Rightarrow> [] | Some a \<Rightarrow> a)
                     @ map Value (filter (\<lambda>h. Name h = n) hs)))"
proof (induction hs arbitrary: m)
  case Nil
  then show ?case by simp
next
  case (Cons h hs)
  then show ?case by (auto simp: lookup_flattenStep split: option.splits)
qed

lemma distinct_flattenStep:
  "distinct (map fst m) \<Longrightarrow> distinct (map fst (flattenStep h m))"
  by (auto simp: flattenStep_def Let_def distinct_update distinct_delete split: option.splits)

lemma distinct_fold_flattenStep:
  "distinct (map fst m) \<Longrightarrow> distinct (map fst (fold flattenStep hs m))"
  by (induction hs arbitrary: m) (simp_all add: distinct_flattenStep)

lemma distinct_headersOut: "distinct (map fst (headersOut hs))"
  by (simp add: headersOut_def distinct_fold_flattenStep)

lemma lookup_after_detach:
  assumes "Detach d"
  shows "map_of (headersOut (pre @ d # post)) (Name d) = map_of (headersOut post) (Name d)"
proof -
  have "map_of (flattenStep d (fold flattenStep pre [])) (Name d) = map_of [] (Name d)"
    using assms by (simp add: lookup_flattenStep)
  then have "map_of (fold flattenStep post (flattenStep d (fold flattenStep pre []))) (Name d)
      = map_of (fold flattenStep post []) (Name d)"
    by (rule lookup_fold_cong)
  then show ?thesis by (simp add: headersOut_def)
qed

lemma lookup_other_name:
  assumes "Detach d" and "n \<noteq> Name d"
  shows "map_of (headersOut (pre @ d # post)) n = map_of (headersOut (pre @ post)) n"
proof -
  have "map_of (flattenStep d (fold flattenStep pre [])) n = map_of (fold flattenStep pre []) n"
    using assms by (simp add: lookup_flattenStep)
  then have "map_of (fold flattenStep post (flattenStep d (fold flattenStep pre []))) n
      = map_of (fold flattenStep post (fold flattenStep pre [])) n"
    by (rule lookup_fold_cong)
  then show ?thesis by (simp add: headersOut_def)
qed

lemma entry_iff_lookup: "(n, vs) \<in> set (headersOut hs) \<longleftrightarrow> map_of (headersOut hs) n = Some vs"
  using distinct_headersOut by simp

lemma Flatten_line: "map_of (headersOut hs) n = Some vs \<Longrightarrow> n @ '': '' @ Join vs '','' \<in> set (Flatten hs)"
proof -
  assume "map_of (headersOut hs) n = Some vs"
  then have "(n, vs) \<in> set (headersOut hs)" by (simp add: entry_iff_lookup)
  then have "(\<lambda>(name, values). name @ '': '' @ Join values '','') (n, vs) \<in> set (Flatten hs)"
    unfolding Flatten_def set_map by (rule imageI)
  then show ?thesis by simp
qed

lemma filter_key_distinct:
  "distinct (map fst al) \<Longrightarrow> map_of al n = Some v \<Longrightarrow> filter (\<lambda>e. fst e = n) al = [(n, v)]"
proof (induction al)
  case Nil
  then show ?case by simp
next
  case (Cons e al)
  show ?case
  proof (cases "fst e = n")
    case True
    with Cons.prems have "e = (n, v)" by (cases e) simp
    moreover from True Cons.prems have "n \<notin> fst ` set al" by auto
    then have "filter (\<lambda>e. fst e = n) al = []" by (auto simp: filter_empty_conv)
    ultimately show ?thesis by simp
  next
    case False
    with Cons show ?thesis by auto
  qed
qed

subsection \<open>The parser's loop\<close>

lemma parseLines_append:
  "parseLines up st (xs @ ys) =
     (case parseLines up st xs of Inl e \<Rightarrow> Inl e | Inr st1 \<Rightarrow> parseLines up st1 ys)"
  by (induction xs arbitrary: st) (simp_all split: sum.splits)

lemma parseLine_skips:
  "TrimSpace l = [] \<or> (\<exists>rest. TrimSpace l = CHR ''#'' # rest) \<Longrightarrow> parseLine up st l = Inr st"
  by (auto simp: parseLine_def)

text \<open>
  A pattern line of the shape \<^verbatim>\<open>^https?://(host)/\<close> whose host ends in a colon and
  digits is rejected before \<^verbatim>\<open>url.Parse\<close> is called.
\<close>

lemma absolute_pattern_with_port_rejected:
  assumes "absoluteUrlMatcher (TrimSpace l) = Some host" and "hostPortMatcher host"
    and "hd l \<noteq> CHR 0x09" and "hd l \<noteq> CHR '' ''"
  shows "parseLine urlParse st l = Inl (InvalidPort (TrimSpace l))"
proof -
  from assms(1) have "HasPrefix (TrimSpace l) ''http''"
    by (auto simp: absoluteUrlMatcher_def HasPrefix_def Let_def split: if_splits
        dest: arg_cong[where f = "take 4"])
  then obtain rest where "TrimSpace l = CHR ''h'' # rest"
    by (cases "TrimSpace l") (auto simp: HasPrefix_def)
  with assms show ?thesis by (simp add: parseLine_def)
qed

section \<open>Substitution into header values\<close>

text \<open>
  C1 (as amended). When a rule matches through the splat mechanism, with the capture
  \<open>cap\<close>, against the hostname if the pattern has a host and against the path otherwise,
  the rule contributes its headers with, in every value, the first occurrence of the literal
  token \<^verbatim>\<open>:splat\<close> replaced by \<open>cap\<close>: a value without the token is unchanged, and in
  a value \<open>a @ '':splat'' @ b\<close> whose first occurrence of the token is the one shown, the
  text \<open>b\<close> after it is left as it is.
\<close>

theorem splat_match_substitutes_splat_token:
  assumes "(Host (Pattern r) \<noteq> [] \<and> hasSplat (Host (Pattern r)) (Hostname u) ''.'' = Some cap)
         \<or> (Host (Pattern r) = [] \<and> hasSplat (Path (Pattern r)) (Path u) ''/'' = Some cap)"
  shows "matchRule u r = map (\<lambda>h. h\<lparr>Value := Replace1 (Value h) '':splat'' cap\<rparr>) (Headers r)
       \<and> (\<forall>a b. \<not> Contains (a @ '':spla'') '':splat''
              \<longrightarrow> Replace1 (a @ '':splat'' @ b) '':splat'' cap = a @ cap @ b)
       \<and> (\<forall>v. \<not> Contains v '':splat'' \<longrightarrow> Replace1 v '':splat'' cap = v)"
proof (intro conjI allI impI)
  show "matchRule u r = map (\<lambda>h. h\<lparr>Value := Replace1 (Value h) '':splat'' cap\<rparr>) (Headers r)"
    using assms by (auto simp: matchRule_def replacedHeaders_map)
next
  fix a b assume "\<not> Contains (a @ '':spla'') '':splat''"
  then show "Replace1 (a @ '':splat'' @ b) '':splat'' cap = a @ cap @ b"
    using Replace1_first[of "'':splat''" a b cap] by simp
next
  fix v assume "\<not> Contains v '':splat''"
  then show "Replace1 v '':splat'' cap = v" by (rule Replace1_absent)
qed

theorem splat_match_substitutes_splat_token_witness:
  "hasSplat ''/static/*'' ''/static/image.jpg'' ''/'' = Some ''image.jpg''
   \<and> matchRule \<lparr>Scheme = ''https'', Host = ''custom.domain'', Path = ''/static/image.jpg''\<rparr>
        \<lparr>Pattern = \<lparr>Scheme = [], Host = [], Path = ''/static/*''\<rparr>,
         Headers = [\<lparr>Name = ''x-file'', Value = ''*/:splat/:splat'', Detach = False\<rparr>]\<rparr>
     = [\<lparr>Name = ''x-file'', Value = ''*/image.jpg/:splat'', Detach = False\<rparr>]"
proof -
  have h: "hasSplat ''/static/*'' ''/static/image.jpg'' ''/'' = Some ''image.jpg''"
    by (simp add: hasSplat_def string_defs)
  show ?thesis
    using h splat_match_substitutes_splat_token
      [of "\<lparr>Pattern = \<lparr>Scheme = [], Host = [], Path = ''/static/*''\<rparr>,
         Headers = [\<lparr>Name = ''x-file'', Value = ''*/:splat/:splat'', Detach = False\<rparr>]\<rparr>"
          "\<lparr>Scheme = ''https'', Host = ''custom.domain'', Path = ''/static/image.jpg''\<rparr>"
          "''image.jpg''"]
    by (simp add: string_defs)
qed

text \<open>
  C1 as stated fails: the token that \<^verbatim>\<open>Match\<close> passes to \<^verbatim>\<open>replacedHeaders\<close> is
  \<^verbatim>\<open>:splat\<close>, not the character \<^verbatim>\<open>*\<close>. The rule \<^verbatim>\<open>/static/*\<close> with the header
  \<^verbatim>\<open>Access-Control-Allow-Origin: *\<close> captures \<^verbatim>\<open>image.jpg\<close> from
  \<^verbatim>\<open>/static/image.jpg\<close> and leaves the value \<^verbatim>\<open>*\<close> as it is, where a replacement of
  \<^verbatim>\<open>*\<close> would give \<^verbatim>\<open>image.jpg\<close>.
\<close>

theorem splat_token_is_not_the_star_counterexample:
  "hasSplat ''/static/*'' ''/static/image.jpg'' ''/'' = Some ''image.jpg''
   \<and> matchRule \<lparr>Scheme = ''https'', Host = ''custom.domain'', Path = ''/static/image.jpg''\<rparr>
        \<lparr>Pattern = \<lparr>Scheme = [], Host = [], Path = ''/static/*''\<rparr>,
         Headers = [\<lparr>Name = ''Access-Control-Allow-Origin'', Value = ''*'', Detach = False\<rparr>]\<rparr>
     = [\<lparr>Name = ''Access-Control-Allow-Origin'', Value = ''*'', Detach = False\<rparr>]
   \<and> Replace1 ''*'' ''*'' ''image.jpg'' = ''image.jpg''
   \<and> matchRule \<lparr>Scheme = ''https'', Host = ''custom.domain'', Path = ''/static/image.jpg''\<rparr>
        \<lparr>Pattern = \<lparr>Scheme = [], Host = [], Path = ''/static/*''\<rparr>,
         Headers = [\<lparr>Name = ''Access-Control-Allow-Origin'', Value = ''*'', Detach = False\<rparr>]\<rparr>
     \<noteq> [\<lparr>Name = ''Access-Control-Allow-Origin'', Value = Replace1 ''*'' ''*'' ''image.jpg'',
          Detach = False\<rparr>]"
  by (simp add: match_defs string_defs replacedHeaders_def)

text \<open>
  C7. When a rule matches through a named placeholder (the splat mechanism has failed, the
  placeholder mechanism gives the token \<open>tok\<close> and the capture \<open>cap\<close>), the rule
  contributes its headers with, in every value, only the first occurrence of \<open>tok\<close>
  replaced by \<open>cap\<close>: \<open>tok\<close> is a colon, a letter and word characters; a value without
  \<open>tok\<close> is unchanged; and in a value \<open>a @ tok @ b\<close> whose first occurrence of \<open>tok\<close>
  is the one shown, the text \<open>b\<close>, with any later occurrence, is left as it is.
\<close>

theorem placeholder_match_substitutes_first_occurrence:
  assumes "(Host (Pattern r) \<noteq> [] \<and> hasSplat (Host (Pattern r)) (Hostname u) ''.'' = None
              \<and> hasPlaceholder (Host (Pattern r)) (Hostname u) ''.'' = Some (tok, cap))
         \<or> (Host (Pattern r) = [] \<and> hasSplat (Path (Pattern r)) (Path u) ''/'' = None
              \<and> hasPlaceholder (Path (Pattern r)) (Path u) ''/'' = Some (tok, cap))"
  shows "matchRule u r = map (\<lambda>h. h\<lparr>Value := Replace1 (Value h) tok cap\<rparr>) (Headers r)
       \<and> (\<exists>d ws. tok = CHR '':'' # d # ws \<and> isLetter d \<and> list_all isWord ws)
       \<and> (\<forall>a b. \<not> Contains (a @ butlast tok) tok
              \<longrightarrow> Replace1 (a @ tok @ b) tok cap = a @ cap @ b)
       \<and> (\<forall>v. \<not> Contains v tok \<longrightarrow> Replace1 v tok cap = v)"
proof -
  from assms have tok: "tok \<noteq> []" "tok = placeholderMatcher (Host (Pattern r))
      \<or> tok = placeholderMatcher (Path (Pattern r))"
    by (auto dest: hasPlaceholder_token)
  have 1: "matchRule u r = map (\<lambda>h. h\<lparr>Value := Replace1 (Value h) tok cap\<rparr>) (Headers r)"
    using assms by (auto simp: matchRule_def replacedHeaders_map)
  have 2: "\<exists>d ws. tok = CHR '':'' # d # ws \<and> isLetter d \<and> list_all isWord ws"
    using tok placeholderMatcher_shape by metis
  have 3: "\<forall>a b. \<not> Contains (a @ butlast tok) tok \<longrightarrow> Replace1 (a @ tok @ b) tok cap = a @ cap @ b"
    using tok(1) by (simp add: Replace1_first)
  have 4: "\<forall>v. \<not> Contains v tok \<longrightarrow> Replace1 v tok cap = v"
    by (simp add: Replace1_absent)
  from 1 2 3 4 show ?thesis by blast
qed

theorem placeholder_match_substitutes_first_occurrence_witness:
  "hasSplat ''/double/:ref'' ''/double/123'' ''/'' = None
   \<and> hasPlaceholder ''/double/:ref'' ''/double/123'' ''/'' = Some ('':ref'', ''123'')
   \<and> matchRule \<lparr>Scheme = ''https'', Host = ''example.dev'', Path = ''/double/123''\<rparr>
        \<lparr>Pattern = \<lparr>Scheme = [], Host = [], Path = ''/double/:ref''\<rparr>,
         Headers = [\<lparr>Name = ''x-ref'', Value = '':ref and :ref'', Detach = False\<rparr>]\<rparr>
     = [\<lparr>Name = ''x-ref'', Value = ''123 and :ref'', Detach = False\<rparr>]"
proof -
  have h1: "hasSplat ''/double/:ref'' ''/double/123'' ''/'' = None"
    by (simp add: hasSplat_def string_defs)
  have h2: "hasPlaceholder ''/double/:ref'' ''/double/123'' ''/'' = Some ('':ref'', ''123'')"
    by (simp add: hasPlaceholder_def string_defs)
  show ?thesis
    using h1 h2 placeholder_match_substitutes_first_occurrence
      [of "\<lparr>Pattern = \<lparr>Scheme = [], Host = [], Path = ''/double/:ref''\<rparr>,
         Headers = [\<lparr>Name = ''x-ref'', Value = '':ref and :ref'', Detach = False\<rparr>]\<rparr>"
          "\<lparr>Scheme = ''https'', Host = ''example.dev'', Path = ''/double/123''\<rparr>"
          "'':ref''" "''123''"]
    by (simp add: string_defs)
qed


section \<open>Which rules match\<close>

text \<open>
  C2. For a rule whose pattern has a non-empty host, \<^verbatim>\<open>Match\<close> tests the request's
  hostname against the pattern's host only (splat, then placeholder, then equality), and
  what the rule contributes is the same whatever the request's path \<open>q\<close> and the
  pattern's path \<open>p\<close> are.
\<close>

theorem host_rule_matches_on_host_alone:
  assumes "Host (Pattern r) \<noteq> []"
  shows "matchRule u r =
           (case hasSplat (Host (Pattern r)) (Hostname u) ''.'' of
              Some cap \<Rightarrow> replacedHeaders (Headers r) '':splat'' cap
            | None \<Rightarrow>
                (case hasPlaceholder (Host (Pattern r)) (Hostname u) ''.'' of
                   Some (tok, cap) \<Rightarrow> replacedHeaders (Headers r) tok cap
                 | None \<Rightarrow> if Host (Pattern r) = Hostname u then Headers r else []))
       \<and> matchRule (u\<lparr>Path := q\<rparr>) (r\<lparr>Pattern := (Pattern r)\<lparr>Path := p\<rparr>\<rparr>) = matchRule u r"
  using assms by (simp add: matchRule_def Let_def Hostname_Path_update cong: option.case_cong if_cong)

theorem host_rule_matches_on_host_alone_witness:
  "Host (Pattern \<lparr>Pattern = \<lparr>Scheme = ''https'', Host = ''myproject.pages.dev'', Path = ''/*''\<rparr>,
                  Headers = [\<lparr>Name = ''X-Robots-Tag'', Value = ''noindex'', Detach = False\<rparr>]\<rparr>) \<noteq> []
   \<and> matchRule \<lparr>Scheme = ''https'', Host = ''myproject.pages.dev'', Path = ''/a/b/c''\<rparr>
        \<lparr>Pattern = \<lparr>Scheme = ''https'', Host = ''myproject.pages.dev'', Path = ''/nowhere''\<rparr>,
         Headers = [\<lparr>Name = ''X-Robots-Tag'', Value = ''noindex'', Detach = False\<rparr>]\<rparr>
     = [\<lparr>Name = ''X-Robots-Tag'', Value = ''noindex'', Detach = False\<rparr>]"
  using host_rule_matches_on_host_alone
    [of "\<lparr>Pattern = \<lparr>Scheme = ''https'', Host = ''myproject.pages.dev'', Path = ''/*''\<rparr>,
          Headers = [\<lparr>Name = ''X-Robots-Tag'', Value = ''noindex'', Detach = False\<rparr>]\<rparr>"
        "\<lparr>Scheme = ''https'', Host = ''myproject.pages.dev'', Path = ''/home''\<rparr>"
        "''/a/b/c''" "''/nowhere''"]
  by (simp add: hasSplat_def hasPlaceholder_def Hostname_def string_defs)

text \<open>
  C5. Two requests with the same hostname and the same path, whatever their schemes and
  ports, get the same contribution from every rule, the same header stack and the same set
  of output lines.
\<close>

theorem scheme_and_port_never_affect_match:
  assumes "Hostname u1 = Hostname u2" and "Path u1 = Path u2"
  shows "matchRule u1 r = matchRule u2 r
       \<and> headerStack f u1 = headerStack f u2
       \<and> set (Match f u1) = set (Match f u2)"
proof -
  have "matchRule u1 = matchRule u2"
    unfolding matchRule_def fun_eq_iff assms by simp
  then show ?thesis by (simp add: headerStack_def Match_def)
qed

theorem scheme_and_port_never_affect_match_witness:
  "Hostname \<lparr>Scheme = ''https'', Host = ''example.com'', Path = ''/secure/page''\<rparr>
     = Hostname \<lparr>Scheme = ''other'', Host = ''example.com:1234'', Path = ''/secure/page''\<rparr>
   \<and> set (Match [\<lparr>Pattern = \<lparr>Scheme = ''https'', Host = ''example.com'', Path = ''/*''\<rparr>,
                   Headers = [\<lparr>Name = ''X-Frame-Options'', Value = ''DENY'', Detach = False\<rparr>]\<rparr>]
             \<lparr>Scheme = ''other'', Host = ''example.com:1234'', Path = ''/secure/page''\<rparr>)
     = set (Match [\<lparr>Pattern = \<lparr>Scheme = ''https'', Host = ''example.com'', Path = ''/*''\<rparr>,
                   Headers = [\<lparr>Name = ''X-Frame-Options'', Value = ''DENY'', Detach = False\<rparr>]\<rparr>]
             \<lparr>Scheme = ''https'', Host = ''example.com'', Path = ''/secure/page''\<rparr>)
   \<and> Match [\<lparr>Pattern = \<lparr>Scheme = ''https'', Host = ''example.com'', Path = ''/*''\<rparr>,
              Headers = [\<lparr>Name = ''X-Frame-Options'', Value = ''DENY'', Detach = False\<rparr>]\<rparr>]
        \<lparr>Scheme = ''https'', Host = ''example.com'', Path = ''/secure/page''\<rparr>
     = [''X-Frame-Options: DENY'']"
proof -
  have h: "Hostname \<lparr>Scheme = ''https'', Host = ''example.com'', Path = ''/secure/page''\<rparr>
     = Hostname \<lparr>Scheme = ''other'', Host = ''example.com:1234'', Path = ''/secure/page''\<rparr>"
    by (simp add: Hostname_def validOptionalPort_def string_defs)
  have m: "Match [\<lparr>Pattern = \<lparr>Scheme = ''https'', Host = ''example.com'', Path = ''/*''\<rparr>,
              Headers = [\<lparr>Name = ''X-Frame-Options'', Value = ''DENY'', Detach = False\<rparr>]\<rparr>]
        \<lparr>Scheme = ''https'', Host = ''example.com'', Path = ''/secure/page''\<rparr>
     = [''X-Frame-Options: DENY'']"
    by (simp add: flatten_defs headerStack_def match_defs string_defs)
  have p: "Path \<lparr>Scheme = ''https'', Host = ''example.com'', Path = ''/secure/page''\<rparr>
     = Path \<lparr>Scheme = ''other'', Host = ''example.com:1234'', Path = ''/secure/page''\<rparr>"
    by simp
  have "set (Match [\<lparr>Pattern = \<lparr>Scheme = ''https'', Host = ''example.com'', Path = ''/*''\<rparr>,
                   Headers = [\<lparr>Name = ''X-Frame-Options'', Value = ''DENY'', Detach = False\<rparr>]\<rparr>]
             \<lparr>Scheme = ''https'', Host = ''example.com'', Path = ''/secure/page''\<rparr>)
     = set (Match [\<lparr>Pattern = \<lparr>Scheme = ''https'', Host = ''example.com'', Path = ''/*''\<rparr>,
                   Headers = [\<lparr>Name = ''X-Frame-Options'', Value = ''DENY'', Detach = False\<rparr>]\<rparr>]
             \<lparr>Scheme = ''other'', Host = ''example.com:1234'', Path = ''/secure/page''\<rparr>)"
    using scheme_and_port_never_affect_match[OF h p] by blast
  with h m show ?thesis by simp
qed

text \<open>
  C10. One rule contributes its header list to the stack at most once in a \<^verbatim>\<open>Match\<close>
  call: its contribution is empty or carries exactly the names of its headers, once each and
  in order; the stack is the concatenation of the contributions in the order of the rules;
  and the contribution is that of the first mechanism that succeeds among splat, placeholder
  and equality, tested against the hostname when the pattern has a host and against the path
  otherwise.
\<close>

theorem rule_contributes_at_most_once:
  "(matchRule u r = [] \<or> map Name (matchRule u r) = map Name (Headers r))
   \<and> length (matchRule u r) \<le> length (Headers r)
   \<and> headerStack f u = concat (map (matchRule u) f)
   \<and> length (headerStack f u) \<le> sum_list (map (\<lambda>r. length (Headers r)) f)
   \<and> matchRule u r =
       (let src = (if Host (Pattern r) \<noteq> [] then Host (Pattern r) else Path (Pattern r));
            inp = (if Host (Pattern r) \<noteq> [] then Hostname u else Path u);
            d = (if Host (Pattern r) \<noteq> [] then ''.'' else ''/'')
        in case hasSplat src inp d of
             Some cap \<Rightarrow> replacedHeaders (Headers r) '':splat'' cap
           | None \<Rightarrow>
               (case hasPlaceholder src inp d of
                  Some (tok, cap) \<Rightarrow> replacedHeaders (Headers r) tok cap
                | None \<Rightarrow> if src = inp then Headers r else []))"
proof -
  have "matchRule u r =
       (let src = (if Host (Pattern r) \<noteq> [] then Host (Pattern r) else Path (Pattern r));
            inp = (if Host (Pattern r) \<noteq> [] then Hostname u else Path u);
            d = (if Host (Pattern r) \<noteq> [] then ''.'' else ''/'')
        in case hasSplat src inp d of
             Some cap \<Rightarrow> replacedHeaders (Headers r) '':splat'' cap
           | None \<Rightarrow>
               (case hasPlaceholder src inp d of
                  Some (tok, cap) \<Rightarrow> replacedHeaders (Headers r) tok cap
                | None \<Rightarrow> if src = inp then Headers r else []))"
    by (simp add: matchRule_def Let_def)
  with matchRule_names[of u r] matchRule_length[of u r] headerStack_concat[of f u]
    headerStack_length[of f u]
  show ?thesis by blast
qed

theorem rule_contributes_at_most_once_witness:
  "hasSplat ''/a/*'' ''/a/*'' ''/'' = Some ''*''
   \<and> Path (Pattern \<lparr>Pattern = \<lparr>Scheme = [], Host = [], Path = ''/a/*''\<rparr>,
                    Headers = [\<lparr>Name = ''x-a'', Value = ''1'', Detach = False\<rparr>]\<rparr>)
     = Path \<lparr>Scheme = ''https'', Host = ''example.com'', Path = ''/a/*''\<rparr>
   \<and> headerStack [\<lparr>Pattern = \<lparr>Scheme = [], Host = [], Path = ''/a/*''\<rparr>,
                    Headers = [\<lparr>Name = ''x-a'', Value = ''1'', Detach = False\<rparr>]\<rparr>]
        \<lparr>Scheme = ''https'', Host = ''example.com'', Path = ''/a/*''\<rparr>
     = [\<lparr>Name = ''x-a'', Value = ''1'', Detach = False\<rparr>]"
  using rule_contributes_at_most_once
    [of "\<lparr>Scheme = ''https'', Host = ''example.com'', Path = ''/a/*''\<rparr>"
        "\<lparr>Pattern = \<lparr>Scheme = [], Host = [], Path = ''/a/*''\<rparr>,
          Headers = [\<lparr>Name = ''x-a'', Value = ''1'', Detach = False\<rparr>]\<rparr>"
        "[\<lparr>Pattern = \<lparr>Scheme = [], Host = [], Path = ''/a/*''\<rparr>,
          Headers = [\<lparr>Name = ''x-a'', Value = ''1'', Detach = False\<rparr>]\<rparr>]"]
  by (simp add: hasSplat_def replacedHeaders_def string_defs)


section \<open>Captures and the forbidden delimiter\<close>

text \<open>
  C3. A splat or placeholder match attempt with the delimiter \<open>c\<close> (\<^verbatim>\<open>.\<close> for a host
  fragment, \<^verbatim>\<open>/\<close> for a path fragment) succeeds only with a capture that does not contain
  \<open>c\<close>, the capture being the input without the suffix and then without the prefix that
  the pattern has around its token; and when that middle part of the input contains \<open>c\<close>,
  the attempt fails.
\<close>

theorem capture_never_spans_delimiter:
  "(hasSplat src inp [c] = Some cap \<longrightarrow>
      c \<notin> set cap \<and>
      (\<exists>pre suf rest. Split src (CHR ''*'') = pre # suf # rest \<and> HasPrefix inp pre
          \<and> HasSuffix inp suf \<and> cap = TrimPrefix (TrimSuffix inp suf) pre))
   \<and> (hasPlaceholder src inp [c] = Some (tok, cap) \<longrightarrow>
      c \<notin> set cap \<and>
      (\<exists>pre suf rest. SplitN2 src tok = pre # suf # rest \<and> HasPrefix inp pre
          \<and> HasSuffix inp suf \<and> cap = TrimPrefix (TrimSuffix inp suf) pre))
   \<and> (Split src (CHR ''*'') = pre # suf # rest \<and> c \<in> set (TrimPrefix (TrimSuffix inp suf) pre)
        \<longrightarrow> hasSplat src inp [c] = None)
   \<and> (SplitN2 src (placeholderMatcher src) = pre # suf # rest
        \<and> c \<in> set (TrimPrefix (TrimSuffix inp suf) pre)
        \<longrightarrow> hasPlaceholder src inp [c] = None)"
proof (intro conjI impI)
  assume h: "hasSplat src inp [c] = Some cap"
  then show "c \<notin> set cap"
    by (auto simp: hasSplat_def Let_def Contains_single split: if_splits list.splits)
  from h show "\<exists>pre suf rest. Split src (CHR ''*'') = pre # suf # rest \<and> HasPrefix inp pre
          \<and> HasSuffix inp suf \<and> cap = TrimPrefix (TrimSuffix inp suf) pre"
    by (auto simp: hasSplat_def Let_def split: if_splits list.splits)
next
  assume h: "hasPlaceholder src inp [c] = Some (tok, cap)"
  then show "c \<notin> set cap"
    by (auto simp: hasPlaceholder_def Let_def Contains_single split: if_splits list.splits)
  from h show "\<exists>pre suf rest. SplitN2 src tok = pre # suf # rest \<and> HasPrefix inp pre
          \<and> HasSuffix inp suf \<and> cap = TrimPrefix (TrimSuffix inp suf) pre"
    by (auto simp: hasPlaceholder_def Let_def split: if_splits list.splits)
next
  assume "Split src (CHR ''*'') = pre # suf # rest \<and> c \<in> set (TrimPrefix (TrimSuffix inp suf) pre)"
  then show "hasSplat src inp [c] = None"
    by (simp add: hasSplat_def Let_def Contains_single)
next
  assume "SplitN2 src (placeholderMatcher src) = pre # suf # rest
        \<and> c \<in> set (TrimPrefix (TrimSuffix inp suf) pre)"
  then show "hasPlaceholder src inp [c] = None"
    by (simp add: hasPlaceholder_def Let_def Contains_single)
qed

theorem capture_never_spans_delimiter_witness:
  "hasPlaceholder ''/movies/:title'' ''/movies/star-wars/episode-1'' ''/'' = None
   \<and> hasPlaceholder '':subdomain.example.com'' ''sub.dub.example.com'' ''.'' = None
   \<and> hasSplat ''*.example.com'' ''sub.dub.example.com'' ''.'' = None
   \<and> hasPlaceholder ''/movies/:title'' ''/movies/star-wars'' ''/'' = Some ('':title'', ''star-wars'')
   \<and> CHR ''/'' \<notin> set ''star-wars''
   \<and> Match [\<lparr>Pattern = \<lparr>Scheme = [], Host = [], Path = ''/movies/:title''\<rparr>,
              Headers = [\<lparr>Name = ''x-movie-name'', Value = ''You are watching :title'',
                          Detach = False\<rparr>]\<rparr>]
        \<lparr>Scheme = ''https'', Host = ''example.com'', Path = ''/movies/star-wars/episode-1''\<rparr> = []"
proof -
  have a: "SplitN2 ''/movies/:title'' (placeholderMatcher ''/movies/:title'') = ''/movies/'' # [] # []
      \<and> CHR ''/'' \<in> set (TrimPrefix (TrimSuffix ''/movies/star-wars/episode-1'' []) ''/movies/'')"
    by (simp add: string_defs)
  have b: "SplitN2 '':subdomain.example.com'' (placeholderMatcher '':subdomain.example.com'')
        = [] # ''.example.com'' # []
      \<and> CHR ''.'' \<in> set (TrimPrefix (TrimSuffix ''sub.dub.example.com'' ''.example.com'') [])"
    by (simp add: string_defs)
  have c: "Split ''*.example.com'' (CHR ''*'') = [] # ''.example.com'' # []
      \<and> CHR ''.'' \<in> set (TrimPrefix (TrimSuffix ''sub.dub.example.com'' ''.example.com'') [])"
    by (simp add: string_defs)
  have d: "hasPlaceholder ''/movies/:title'' ''/movies/star-wars'' ''/'' = Some ('':title'', ''star-wars'')"
    by (simp add: hasPlaceholder_def string_defs)
  have 1: "hasPlaceholder ''/movies/:title'' ''/movies/star-wars/episode-1'' ''/'' = None"
    using a capture_never_spans_delimiter
      [of "''/movies/:title''" "''/movies/star-wars/episode-1''" "CHR ''/''" _ _ "''/movies/''" "[]" "[]"]
    by blast
  have 2: "hasPlaceholder '':subdomain.example.com'' ''sub.dub.example.com'' ''.'' = None"
    using b capture_never_spans_delimiter
      [of "'':subdomain.example.com''" "''sub.dub.example.com''" "CHR ''.''" _ _ "[]" "''.example.com''" "[]"]
    by blast
  have 3: "hasSplat ''*.example.com'' ''sub.dub.example.com'' ''.'' = None"
    using c capture_never_spans_delimiter
      [of "''*.example.com''" "''sub.dub.example.com''" "CHR ''.''" _ _ "[]" "''.example.com''" "[]"]
    by blast
  have 4: "CHR ''/'' \<notin> set ''star-wars''"
    using d capture_never_spans_delimiter
      [of "''/movies/:title''" "''/movies/star-wars''" "CHR ''/''" "''star-wars''" "'':title''"]
    by blast
  have 5: "Match [\<lparr>Pattern = \<lparr>Scheme = [], Host = [], Path = ''/movies/:title''\<rparr>,
              Headers = [\<lparr>Name = ''x-movie-name'', Value = ''You are watching :title'',
                          Detach = False\<rparr>]\<rparr>]
        \<lparr>Scheme = ''https'', Host = ''example.com'', Path = ''/movies/star-wars/episode-1''\<rparr> = []"
    using 1 by (simp add: flatten_defs headerStack_def matchRule_def hasSplat_def)
  from 1 2 3 4 5 d show ?thesis by blast
qed


section \<open>Flattening the stack\<close>

text \<open>
  C4. In \<^verbatim>\<open>Flatten\<close>, a detach entry \<open>d\<close> between the entries \<open>pre\<close> and \<open>post\<close> of
  the stack removes the values of its name accumulated from \<open>pre\<close> and nothing else: what
  the map holds for that name is what \<open>post\<close> alone gives; every other name has the entry
  it has without \<open>d\<close>; when nothing in \<open>post\<close> carries the name, the name has no
  entry; and when \<open>post\<close> has entries for the name, none of them a detach, the output has
  the line of that name with the values of \<open>post\<close>.
\<close>

theorem detach_clears_earlier_values_of_its_name_only:
  assumes "Detach d"
  shows "map_of (headersOut (pre @ d # post)) (Name d) = map_of (headersOut post) (Name d)
       \<and> (\<forall>n. n \<noteq> Name d \<longrightarrow>
             map_of (headersOut (pre @ d # post)) n = map_of (headersOut (pre @ post)) n)
       \<and> {e \<in> set (headersOut (pre @ d # post)). fst e \<noteq> Name d}
           = {e \<in> set (headersOut (pre @ post)). fst e \<noteq> Name d}
       \<and> ((\<forall>h\<in>set post. Name h \<noteq> Name d) \<longrightarrow>
             Name d \<notin> fst ` set (headersOut (pre @ d # post)))
       \<and> ((\<forall>h\<in>set post. Name h = Name d \<longrightarrow> \<not> Detach h)
             \<and> filter (\<lambda>h. Name h = Name d) post \<noteq> [] \<longrightarrow>
             map_of (headersOut (pre @ d # post)) (Name d)
               = Some (map Value (filter (\<lambda>h. Name h = Name d) post))
             \<and> Name d @ '': '' @ Join (map Value (filter (\<lambda>h. Name h = Name d) post)) '',''
                 \<in> set (Flatten (pre @ d # post)))"
proof -
  have 1: "map_of (headersOut (pre @ d # post)) (Name d) = map_of (headersOut post) (Name d)"
    using assms by (rule lookup_after_detach)
  have 2: "\<forall>n. n \<noteq> Name d \<longrightarrow>
             map_of (headersOut (pre @ d # post)) n = map_of (headersOut (pre @ post)) n"
    using assms by (simp add: lookup_other_name)
  have 3: "{e \<in> set (headersOut (pre @ d # post)). fst e \<noteq> Name d}
           = {e \<in> set (headersOut (pre @ post)). fst e \<noteq> Name d}"
  proof -
    have "e \<in> set (headersOut (pre @ d # post)) \<longleftrightarrow> e \<in> set (headersOut (pre @ post))"
      if "fst e \<noteq> Name d" for e
      using that 2 entry_iff_lookup[of "fst e" "snd e"] by simp
    then show ?thesis by blast
  qed
  have 4: "(\<forall>h\<in>set post. Name h \<noteq> Name d) \<longrightarrow>
             Name d \<notin> fst ` set (headersOut (pre @ d # post))"
  proof
    assume that: "\<forall>h\<in>set post. Name h \<noteq> Name d"
    from that have "filter (\<lambda>h. Name h = Name d) post = []" by (simp add: filter_empty_conv)
    moreover from that have "\<forall>h\<in>set post. Name h = Name d \<longrightarrow> \<not> Detach h" by simp
    ultimately have "map_of (headersOut post) (Name d) = None"
      unfolding headersOut_def by (simp add: lookup_no_detach)
    with 1 show "Name d \<notin> fst ` set (headersOut (pre @ d # post))"
      by (simp add: map_of_eq_None_iff)
  qed
  have 5: "(\<forall>h\<in>set post. Name h = Name d \<longrightarrow> \<not> Detach h)
             \<and> filter (\<lambda>h. Name h = Name d) post \<noteq> [] \<longrightarrow>
             map_of (headersOut (pre @ d # post)) (Name d)
               = Some (map Value (filter (\<lambda>h. Name h = Name d) post))
             \<and> Name d @ '': '' @ Join (map Value (filter (\<lambda>h. Name h = Name d) post)) '',''
                 \<in> set (Flatten (pre @ d # post))"
  proof
    assume that: "(\<forall>h\<in>set post. Name h = Name d \<longrightarrow> \<not> Detach h)
             \<and> filter (\<lambda>h. Name h = Name d) post \<noteq> []"
    from that have "map_of (headersOut post) (Name d)
        = Some (map Value (filter (\<lambda>h. Name h = Name d) post))"
      unfolding headersOut_def by (simp add: lookup_no_detach)
    with 1 have look: "map_of (headersOut (pre @ d # post)) (Name d)
        = Some (map Value (filter (\<lambda>h. Name h = Name d) post))" by simp
    from look have "Name d @ '': '' @ Join (map Value (filter (\<lambda>h. Name h = Name d) post)) '',''
                 \<in> set (Flatten (pre @ d # post))"
      by (rule Flatten_line)
    with look show "map_of (headersOut (pre @ d # post)) (Name d)
               = Some (map Value (filter (\<lambda>h. Name h = Name d) post))
             \<and> Name d @ '': '' @ Join (map Value (filter (\<lambda>h. Name h = Name d) post)) '',''
                 \<in> set (Flatten (pre @ d # post))"
      by (rule conjI)
  qed
  show ?thesis by (rule conjI[OF 1 conjI[OF 2 conjI[OF 3 conjI[OF 4 5]]]])
qed

theorem detach_clears_earlier_values_of_its_name_only_witness:
  "Detach \<lparr>Name = ''CSP'', Value = [], Detach = True\<rparr>
   \<and> Flatten [\<lparr>Name = ''CSP'', Value = ''a'', Detach = False\<rparr>,
               \<lparr>Name = ''X'', Value = ''1'', Detach = False\<rparr>,
               \<lparr>Name = ''CSP'', Value = [], Detach = True\<rparr>,
               \<lparr>Name = ''CSP'', Value = ''b'', Detach = False\<rparr>,
               \<lparr>Name = ''CSP'', Value = ''c'', Detach = False\<rparr>] = [''X: 1'', ''CSP: b,c'']
   \<and> map_of (headersOut [\<lparr>Name = ''CSP'', Value = ''a'', Detach = False\<rparr>,
               \<lparr>Name = ''X'', Value = ''1'', Detach = False\<rparr>,
               \<lparr>Name = ''CSP'', Value = [], Detach = True\<rparr>,
               \<lparr>Name = ''CSP'', Value = ''b'', Detach = False\<rparr>,
               \<lparr>Name = ''CSP'', Value = ''c'', Detach = False\<rparr>]) ''CSP'' = Some [''b'', ''c'']
   \<and> Flatten [\<lparr>Name = ''CSP'', Value = ''a'', Detach = False\<rparr>,
               \<lparr>Name = ''X'', Value = ''1'', Detach = False\<rparr>,
               \<lparr>Name = ''CSP'', Value = [], Detach = True\<rparr>] = [''X: 1'']"
proof -
  have d: "Detach \<lparr>Name = ''CSP'', Value = [], Detach = True\<rparr>" by simp
  have f1: "Flatten [\<lparr>Name = ''CSP'', Value = ''a'', Detach = False\<rparr>,
               \<lparr>Name = ''X'', Value = ''1'', Detach = False\<rparr>,
               \<lparr>Name = ''CSP'', Value = [], Detach = True\<rparr>,
               \<lparr>Name = ''CSP'', Value = ''b'', Detach = False\<rparr>,
               \<lparr>Name = ''CSP'', Value = ''c'', Detach = False\<rparr>] = [''X: 1'', ''CSP: b,c'']"
    by (simp add: flatten_defs)
  have f2: "Flatten [\<lparr>Name = ''CSP'', Value = ''a'', Detach = False\<rparr>,
               \<lparr>Name = ''X'', Value = ''1'', Detach = False\<rparr>,
               \<lparr>Name = ''CSP'', Value = [], Detach = True\<rparr>] = [''X: 1'']"
    by (simp add: flatten_defs)
  let ?d = "\<lparr>Name = ''CSP'', Value = [], Detach = True\<rparr>"
  let ?pre = "[\<lparr>Name = ''CSP'', Value = ''a'', Detach = False\<rparr>,
               \<lparr>Name = ''X'', Value = ''1'', Detach = False\<rparr>]"
  let ?post = "[\<lparr>Name = ''CSP'', Value = ''b'', Detach = False\<rparr>,
               \<lparr>Name = ''CSP'', Value = ''c'', Detach = False\<rparr>]"
  have hyp: "(\<forall>h\<in>set ?post. Name h = Name ?d \<longrightarrow> \<not> Detach h)
             \<and> filter (\<lambda>h. Name h = Name ?d) ?post \<noteq> []"
    by simp
  have "map_of (headersOut (?pre @ ?d # ?post)) (Name ?d)
          = Some (map Value (filter (\<lambda>h. Name h = Name ?d) ?post))"
    by (rule detach_clears_earlier_values_of_its_name_only
          [OF d, of ?pre ?post, THEN conjunct2, THEN conjunct2, THEN conjunct2, THEN conjunct2,
           THEN mp, OF hyp, THEN conjunct1])
  then have "map_of (headersOut (?pre @ ?d # ?post)) ''CSP'' = Some [''b'', ''c'']"
    by simp
  with d f1 f2 show ?thesis by simp
qed

text \<open>
  C8. Let the stack of a \<^verbatim>\<open>Match\<close> call be \<open>pre @ post\<close>, where \<open>post\<close> has no detach
  entry for the name \<open>n\<close> and \<open>pre\<close> is empty or ends with a detach entry for \<open>n\<close>, and
  let \<open>vs\<close>, not empty, be the values of the entries of \<open>post\<close> named \<open>n\<close>, in stack
  order. The stack is the concatenation of the contributions of the rules in declaration
  order; the map has exactly one entry for \<open>n\<close>, with the values \<open>vs\<close>; the output has one
  line for each entry of the map; and the line \<open>n: v1,...,vN\<close>, the values joined by a comma
  without a space, is in the output.
\<close>

theorem same_name_values_joined_in_declaration_order:
  assumes "headerStack f u = pre @ post"
    and "pre = [] \<or> (Detach (last pre) \<and> Name (last pre) = n)"
    and "\<forall>h\<in>set post. Name h = n \<longrightarrow> \<not> Detach h"
    and "vs = map Value (filter (\<lambda>h. Name h = n) post)"
    and "vs \<noteq> []"
  shows "headerStack f u = concat (map (matchRule u) f)
       \<and> filter (\<lambda>e. fst e = n) (headersOut (headerStack f u)) = [(n, vs)]
       \<and> Match f u = map (\<lambda>(name, values). name @ '': '' @ Join values '','')
                        (headersOut (headerStack f u))
       \<and> n @ '': '' @ Join vs '','' \<in> set (Match f u)"
proof -
  have post: "map_of (headersOut post) n = Some vs"
    using assms(3,4,5) unfolding headersOut_def by (simp add: lookup_no_detach)
  have "map_of (headersOut (pre @ post)) n = Some vs"
  proof (cases "pre = []")
    case True
    with post show ?thesis by simp
  next
    case False
    with assms(2) have d: "Detach (last pre)" "Name (last pre) = n" by simp_all
    from False obtain pre' e where p: "pre = pre' @ [e]"
      by (metis append_butlast_last_id)
    with d have e: "Detach e" "Name e = n" by simp_all
    have "map_of (headersOut (pre' @ e # post)) (Name e) = map_of (headersOut post) (Name e)"
      using e(1) by (rule lookup_after_detach)
    with p e(2) post show ?thesis by simp
  qed
  then have look: "map_of (headersOut (headerStack f u)) n = Some vs" using assms(1) by simp
  have a: "headerStack f u = concat (map (matchRule u) f)"
    by (rule headerStack_concat)
  have b: "filter (\<lambda>e. fst e = n) (headersOut (headerStack f u)) = [(n, vs)]"
    using distinct_headersOut look by (rule filter_key_distinct)
  have c: "Match f u = map (\<lambda>(name, values). name @ '': '' @ Join values '','')
                        (headersOut (headerStack f u))"
    by (simp only: Match_def Flatten_def)
  have d: "n @ '': '' @ Join vs '','' \<in> set (Match f u)"
    unfolding Match_def using look by (rule Flatten_line)
  show ?thesis by (rule conjI[OF a conjI[OF b conjI[OF c d]]])
qed

theorem same_name_values_joined_in_declaration_order_witness:
  "headerStack
      [\<lparr>Pattern = \<lparr>Scheme = [], Host = [], Path = ''/static/*''\<rparr>,
        Headers = [\<lparr>Name = ''Access-Control-Allow-Origin'', Value = ''*'', Detach = False\<rparr>,
                   \<lparr>Name = ''X-Robots-Tag'', Value = ''nosnippet'', Detach = False\<rparr>]\<rparr>,
       \<lparr>Pattern = \<lparr>Scheme = ''https'', Host = ''myproject.pages.dev'', Path = ''/*''\<rparr>,
        Headers = [\<lparr>Name = ''X-Robots-Tag'', Value = ''noindex'', Detach = False\<rparr>]\<rparr>]
      \<lparr>Scheme = ''https'', Host = ''myproject.pages.dev'', Path = ''/static/styles.css''\<rparr>
     = [] @ [\<lparr>Name = ''Access-Control-Allow-Origin'', Value = ''*'', Detach = False\<rparr>,
             \<lparr>Name = ''X-Robots-Tag'', Value = ''nosnippet'', Detach = False\<rparr>,
             \<lparr>Name = ''X-Robots-Tag'', Value = ''noindex'', Detach = False\<rparr>]
   \<and> ''X-Robots-Tag: nosnippet,noindex'' \<in> set (Match
      [\<lparr>Pattern = \<lparr>Scheme = [], Host = [], Path = ''/static/*''\<rparr>,
        Headers = [\<lparr>Name = ''Access-Control-Allow-Origin'', Value = ''*'', Detach = False\<rparr>,
                   \<lparr>Name = ''X-Robots-Tag'', Value = ''nosnippet'', Detach = False\<rparr>]\<rparr>,
       \<lparr>Pattern = \<lparr>Scheme = ''https'', Host = ''myproject.pages.dev'', Path = ''/*''\<rparr>,
        Headers = [\<lparr>Name = ''X-Robots-Tag'', Value = ''noindex'', Detach = False\<rparr>]\<rparr>]
      \<lparr>Scheme = ''https'', Host = ''myproject.pages.dev'', Path = ''/static/styles.css''\<rparr>)"
proof -
  have s: "headerStack
      [\<lparr>Pattern = \<lparr>Scheme = [], Host = [], Path = ''/static/*''\<rparr>,
        Headers = [\<lparr>Name = ''Access-Control-Allow-Origin'', Value = ''*'', Detach = False\<rparr>,
                   \<lparr>Name = ''X-Robots-Tag'', Value = ''nosnippet'', Detach = False\<rparr>]\<rparr>,
       \<lparr>Pattern = \<lparr>Scheme = ''https'', Host = ''myproject.pages.dev'', Path = ''/*''\<rparr>,
        Headers = [\<lparr>Name = ''X-Robots-Tag'', Value = ''noindex'', Detach = False\<rparr>]\<rparr>]
      \<lparr>Scheme = ''https'', Host = ''myproject.pages.dev'', Path = ''/static/styles.css''\<rparr>
     = [] @ [\<lparr>Name = ''Access-Control-Allow-Origin'', Value = ''*'', Detach = False\<rparr>,
             \<lparr>Name = ''X-Robots-Tag'', Value = ''nosnippet'', Detach = False\<rparr>,
             \<lparr>Name = ''X-Robots-Tag'', Value = ''noindex'', Detach = False\<rparr>]"
    by (simp add: headerStack_def match_defs string_defs replacedHeaders_def)
  let ?f = "[\<lparr>Pattern = \<lparr>Scheme = [], Host = [], Path = ''/static/*''\<rparr>,
        Headers = [\<lparr>Name = ''Access-Control-Allow-Origin'', Value = ''*'', Detach = False\<rparr>,
                   \<lparr>Name = ''X-Robots-Tag'', Value = ''nosnippet'', Detach = False\<rparr>]\<rparr>,
       \<lparr>Pattern = \<lparr>Scheme = ''https'', Host = ''myproject.pages.dev'', Path = ''/*''\<rparr>,
        Headers = [\<lparr>Name = ''X-Robots-Tag'', Value = ''noindex'', Detach = False\<rparr>]\<rparr>]"
  let ?u = "\<lparr>Scheme = ''https'', Host = ''myproject.pages.dev'', Path = ''/static/styles.css''\<rparr>"
  let ?post = "[\<lparr>Name = ''Access-Control-Allow-Origin'', Value = ''*'', Detach = False\<rparr>,
             \<lparr>Name = ''X-Robots-Tag'', Value = ''nosnippet'', Detach = False\<rparr>,
             \<lparr>Name = ''X-Robots-Tag'', Value = ''noindex'', Detach = False\<rparr>]"
  have h2: "([] :: Header list) = [] \<or> (Detach (last []) \<and> Name (last []) = ''X-Robots-Tag'')"
    by simp
  have h3: "\<forall>h\<in>set ?post. Name h = ''X-Robots-Tag'' \<longrightarrow> \<not> Detach h"
    by simp
  have h4: "[''nosnippet'', ''noindex''] = map Value (filter (\<lambda>h. Name h = ''X-Robots-Tag'') ?post)"
    by simp
  have h5: "[''nosnippet'', ''noindex''] \<noteq> ([] :: string list)"
    by simp
  have "''X-Robots-Tag'' @ '': '' @ Join [''nosnippet'', ''noindex''] '','' \<in> set (Match ?f ?u)"
    by (rule same_name_values_joined_in_declaration_order
          [OF s h2 h3 h4 h5, THEN conjunct2, THEN conjunct2, THEN conjunct2])
  then have "''X-Robots-Tag: nosnippet,noindex'' \<in> set (Match ?f ?u)"
    by simp
  with s show ?thesis by (intro conjI)
qed


section \<open>Parsing\<close>

text \<open>
  C9. A line that trims to the empty string, or whose trimmed content begins with
  \<^verbatim>\<open>#\<close>, is skipped by \<^verbatim>\<open>Parse\<close>: the parser's state after the line is the state
  before it, whether or not the raw line is indented and whether or not a rule is open, so
  the result of \<^verbatim>\<open>Parse\<close> is that of the input without the line; no error comes from it.
\<close>

theorem blank_and_comment_lines_are_skipped:
  assumes "TrimSpace l = [] \<or> (\<exists>rest. TrimSpace l = CHR ''#'' # rest)"
  shows "parseLine urlParse st l = Inr st
       \<and> parseLines urlParse st (pre @ l # post) = parseLines urlParse st (pre @ post)
       \<and> Parse urlParse (pre @ l # post) scanFailed = Parse urlParse (pre @ post) scanFailed"
proof -
  have skip: "parseLine urlParse s l = Inr s" for s
    using assms by (rule parseLine_skips)
  have lines: "parseLines urlParse s (pre @ l # post) = parseLines urlParse s (pre @ post)" for s
    by (simp add: parseLines_append skip cong: sum.case_cong)
  show ?thesis
    by (simp add: skip lines Parse_def)
qed

theorem blank_and_comment_lines_are_skipped_witness:
  "TrimSpace ('' '' @ [CHR 0x09] @ ''# X-Note: indented comment'') = ''# X-Note: indented comment''
   \<and> parseLine (\<lambda>s. None) \<lparr>hmap = [], pattern = None, headers = []\<rparr>
        ('' '' @ [CHR 0x09] @ ''# X-Note: indented comment'')
     = Inr \<lparr>hmap = [], pattern = None, headers = []\<rparr>
   \<and> Parse (\<lambda>s. None) [[CHR 0x09, CHR '' ''], '' '' @ [CHR 0x09] @ ''# X-Note: indented comment''] False
     = Inr []
   \<and> Parse (\<lambda>s. None) [''  X-Note: indented header''] False
     = Inl (HeaderWithoutPattern ''  X-Note: indented header'')"
proof -
  let ?c = "'' '' @ [CHR 0x09] @ ''# X-Note: indented comment''"
  let ?b = "[CHR 0x09, CHR '' '']"
  have t: "TrimSpace ?c = ''# X-Note: indented comment''"
    by (simp add: string_defs)
  then have h: "TrimSpace ?c = [] \<or> (\<exists>rest. TrimSpace ?c = CHR ''#'' # rest)"
    by simp
  have hb: "TrimSpace ?b = [] \<or> (\<exists>rest. TrimSpace ?b = CHR ''#'' # rest)"
    by (simp add: string_defs)
  have 1: "parseLine (\<lambda>s. None) \<lparr>hmap = [], pattern = None, headers = []\<rparr> ?c
      = Inr \<lparr>hmap = [], pattern = None, headers = []\<rparr>"
    by (rule blank_and_comment_lines_are_skipped[OF h, THEN conjunct1])
  have "Parse (\<lambda>s. None) ([?b] @ ?c # []) False = Parse (\<lambda>s. None) ([?b] @ []) False"
    by (rule blank_and_comment_lines_are_skipped[OF h, THEN conjunct2, THEN conjunct2])
  moreover have "Parse (\<lambda>s. None) ([] @ ?b # []) False = Parse (\<lambda>s. None) ([] @ []) False"
    by (rule blank_and_comment_lines_are_skipped[OF hb, THEN conjunct2, THEN conjunct2])
  moreover have "Parse (\<lambda>s. None) [] False = Inr []"
    by (simp add: Parse_def)
  ultimately have 2: "Parse (\<lambda>s. None) [?b, ?c] False = Inr []"
    by simp
  have 3: "Parse (\<lambda>s. None) [''  X-Note: indented header''] False
     = Inl (HeaderWithoutPattern ''  X-Note: indented header'')"
    by (simp add: Parse_def parseLine_def string_defs)
  from t 1 2 3 show ?thesis by (intro conjI)
qed

text \<open>
  C6 fails on the code for an absolute pattern without a path. The line
  \<^verbatim>\<open>https://example.com:8080\<close> has a host with a port, but \<^verbatim>\<open>absoluteUrlMatcher\<close>
  requires a slash after the host and does not match it, so the port check is not reached:
  whatever \<^verbatim>\<open>url.Parse\<close> returns, the error is not \<^verbatim>\<open>InvalidPort\<close>, and with the URL
  that Go's \<^verbatim>\<open>url.Parse\<close> returns for this line, \<^verbatim>\<open>Parse\<close> returns a file whose rule has
  the host \<^verbatim>\<open>example.com:8080\<close>. The same line with \<^verbatim>\<open>/*\<close> after the port is rejected.
\<close>

theorem port_without_path_is_not_rejected:
  "hostPortMatcher ''example.com:8080''
   \<and> absoluteUrlMatcher ''https://example.com:8080'' = None
   \<and> Parse (\<lambda>s. if s = ''https://example.com:8080''
                  then Some \<lparr>Scheme = ''https'', Host = ''example.com:8080'', Path = []\<rparr>
                  else None)
        [''https://example.com:8080'', ''  X-Frame-Options: DENY''] False
     = Inr [\<lparr>Pattern = \<lparr>Scheme = ''https'', Host = ''example.com:8080'', Path = []\<rparr>,
             Headers = [\<lparr>Name = ''X-Frame-Options'', Value = ''DENY'', Detach = False\<rparr>]\<rparr>]
   \<and> (\<forall>x. Parse urlParse [''https://example.com:8080'', ''  X-Frame-Options: DENY''] False
          \<noteq> Inl (InvalidPort x))
   \<and> Parse urlParse [''https://example.com:8080/*'', ''  X-Frame-Options: DENY''] False
     = Inl (InvalidPort ''https://example.com:8080/*'')"
proof (intro conjI allI)
  show "hostPortMatcher ''example.com:8080''"
    by (simp add: isDigit_def)
  show "absoluteUrlMatcher ''https://example.com:8080'' = None"
    by (simp add: absoluteUrlMatcher_def string_defs)
  show "Parse (\<lambda>s. if s = ''https://example.com:8080''
                  then Some \<lparr>Scheme = ''https'', Host = ''example.com:8080'', Path = []\<rparr>
                  else None)
        [''https://example.com:8080'', ''  X-Frame-Options: DENY''] False
     = Inr [\<lparr>Pattern = \<lparr>Scheme = ''https'', Host = ''example.com:8080'', Path = []\<rparr>,
             Headers = [\<lparr>Name = ''X-Frame-Options'', Value = ''DENY'', Detach = False\<rparr>]\<rparr>]"
    by (simp add: Parse_def parseLine_def absoluteUrlMatcher_def checkScheme_def string_defs)
  show "Parse urlParse [''https://example.com:8080'', ''  X-Frame-Options: DENY''] False
          \<noteq> Inl (InvalidPort x)" for x
  proof (cases "urlParse ''https://example.com:8080''")
    case None
    then show ?thesis
      by (simp add: Parse_def parseLine_def absoluteUrlMatcher_def string_defs)
  next
    case (Some p)
    then show ?thesis
      by (cases "Scheme p \<noteq> [] \<and> Scheme p \<noteq> ''https''")
        (simp_all add: Parse_def parseLine_def absoluteUrlMatcher_def checkScheme_def string_defs)
  qed
  show "Parse urlParse [''https://example.com:8080/*'', ''  X-Frame-Options: DENY''] False
     = Inl (InvalidPort ''https://example.com:8080/*'')"
    by (simp add: Parse_def parseLine_def absoluteUrlMatcher_def string_defs)
qed

end
